theory Spec2Isabelle
  imports Main
begin

section \<open>Exceptions of the module\<close>

text \<open>
  The exceptions that \<open>epoc.py\<close> raises itself (\<open>EPOCTurnedOffError\<close>, \<open>EPOCUSBError\<close>)
  and the Python exceptions its expressions can raise: a missing dictionary key, an index
  past the end of a string, indexing \<open>None\<close>, and \<open>.uint\<close> of an empty bit string.
\<close>

datatype error =
    EPOCTurnedOffError
  | EPOCUSBError int
  | KeyError string
  | IndexError
  | TypeError
  | InterpretError

section \<open>Bit strings\<close>

text \<open>
  A decoded frame is a bit string; \<open>bits[slice(a, b)]\<close> keeps the bits \<open>a \<le> i < b\<close> that
  exist (Python slices clamp), and \<open>.uint\<close> reads a bit string as a big-endian unsigned
  integer, raising on the empty bit string.
\<close>

type_synonym bits = "bool list"
type_synonym slice = "nat \<times> nat"

definition slice_bits :: "slice \<Rightarrow> bits \<Rightarrow> bits" where
  "slice_bits sl bs = take (snd sl - fst sl) (drop (fst sl) bs)"

definition uint_value :: "bits \<Rightarrow> nat" where
  "uint_value bs = foldl (\<lambda>acc b. 2 * acc + (if b then 1 else 0)) 0 bs"

definition uint :: "bits \<Rightarrow> error + nat" where
  "uint bs = (if bs = [] then Inl InterpretError else Inr (uint_value bs))"

section \<open>The tables built by \<open>EPOC.__init__\<close>\<close>

definition channels_list :: "string list" where
  "channels_list = [''F3'', ''FC5'', ''AF3'', ''F7'', ''T7'', ''P7'', ''O1'',
                    ''O2'', ''P8'', ''T8'', ''F8'', ''AF4'', ''FC6'', ''F4'']"

definition quality_init :: "string \<rightharpoonup> int" where
  "quality_init = map_of
     [(''F3'', 0), (''FC5'', 0), (''AF3'', 0), (''F7'', 0),
      (''T7'', 0), (''P7'', 0), (''O1'', 0), (''O2'', 0),
      (''P8'', 0), (''T8'', 0), (''F8'', 0), (''AF4'', 0),
      (''FC6'', 0), (''F4'', 0)]"

subsection \<open>Contact quality ordering\<close>

text \<open>The five statements that build \<open>self.cqOrder\<close>, one definition each.\<close>

definition cqOrder_head :: "string option list" where
  "cqOrder_head = map Some
     [''F3'', ''FC5'', ''AF3'', ''F7'', ''T7'', ''P7'', ''O1'',
      ''O2'', ''P8'', ''T8'', ''F8'', ''AF4'', ''FC6'', ''F4'',
      ''F8'', ''AF4'']"

definition cqOrder_gap :: "string option list" where
  "cqOrder_gap = cqOrder_head @ replicate 48 None"

definition cqOrder_repeat :: "string option list" where
  "cqOrder_repeat = cqOrder_gap @ take 16 cqOrder_gap"

definition cqOrder_fc6 :: "string option list" where
  "cqOrder_fc6 = cqOrder_repeat @ [Some ''FC6'']"

definition last4 :: "'a list \<Rightarrow> 'a list" where
  "last4 xs = drop (length xs - 4) xs"

definition cqOrder_init :: "string option list" where
  "cqOrder_init = cqOrder_fc6 @ concat (replicate 12 (last4 cqOrder_fc6))"

subsection \<open>Bit slices\<close>

definition channel_slices :: "slice list" where
  "channel_slices =
     [(8, 22), (22, 36), (36, 50), (50, 64), (64, 78), (78, 92), (92, 106),
      (134, 148), (148, 162), (162, 176), (176, 190), (190, 204), (204, 218),
      (218, 232)]"

definition slices_channels :: "string \<rightharpoonup> slice" where
  "slices_channels = map_of (zip channels_list channel_slices)"

definition slices_gyro1 :: "string \<rightharpoonup> slice" where
  "slices_gyro1 = slices_channels(''GYROX'' \<mapsto> (233, 240))"

definition slices_gyro2 :: "string \<rightharpoonup> slice" where
  "slices_gyro2 = slices_gyro1(''GYROX'' \<mapsto> (240, 248))"

definition slices_init :: "string \<rightharpoonup> slice" where
  "slices_init = slices_gyro2(''SEQ#'' \<mapsto> (0, 8))"

section \<open>The session object\<close>

type_synonym raw = string

record session =
  channels :: "string list"
  quality :: "string \<rightharpoonup> int"
  cqOrder :: "string option list"
  slices :: "string \<rightharpoonup> slice"
  sampling_rate :: int
  serialNumber :: "string option"
  decryption_key :: "string option"
  packetLoss :: int
  counter :: int
  battery :: int
  gyroX :: int
  gyroY :: int
  input_queue :: "raw list"
  output_queue :: "bits list"

text \<open>
  The attributes \<open>__init__\<close> sets before it enumerates the bus; \<open>sn\<close> is the
  \<open>serialNumber\<close> argument.
\<close>

definition EPOC_init :: "string option \<Rightarrow> session" where
  "EPOC_init sn =
     \<lparr> channels = channels_list,
       quality = quality_init,
       cqOrder = cqOrder_init,
       slices = slices_init,
       sampling_rate = 128,
       serialNumber = sn,
       decryption_key = None,
       packetLoss = 0,
       counter = 0,
       battery = 0,
       gyroX = 0,
       gyroY = 0,
       input_queue = [],
       output_queue = [] \<rparr>"

section \<open>Key derivation\<close>

text \<open>
  \<open>setupEncryption\<close> joins sixteen one-character strings. The first element evaluated is
  \<open>self.serialNumber[15]\<close>: it raises when the serial number is \<open>None\<close> or shorter than
  sixteen characters, and then no later index can fail.
\<close>

definition research_key :: "string \<Rightarrow> string" where
  "research_key sn =
     [sn ! 15, CHR 0x00, sn ! 14, CHR 0x54, sn ! 13, CHR 0x10, sn ! 12, CHR 0x42,
      sn ! 15, CHR 0x00, sn ! 14, CHR 0x48, sn ! 13, CHR 0x00, sn ! 12, CHR 0x50]"

definition consumer_key :: "string \<Rightarrow> string" where
  "consumer_key sn =
     [sn ! 15, CHR 0x00, sn ! 14, CHR 0x48, sn ! 13, CHR 0x00, sn ! 12, CHR 0x54,
      sn ! 15, CHR 0x10, sn ! 14, CHR 0x42, sn ! 13, CHR 0x00, sn ! 12, CHR 0x50]"

definition derive_key :: "string option \<Rightarrow> bool \<Rightarrow> error + string" where
  "derive_key serial research =
     (case serial of
        None \<Rightarrow> Inl TypeError
      | Some sn \<Rightarrow>
          if length sn < 16 then Inl IndexError
          else Inr (if research then research_key sn else consumer_key sn))"

definition setupEncryption :: "session \<Rightarrow> bool \<Rightarrow> error + session" where
  "setupEncryption s research =
     (case derive_key (serialNumber s) research of
        Inl e \<Rightarrow> Inl e
      | Inr k \<Rightarrow> Inr (s\<lparr>decryption_key := Some k\<rparr>))"

text \<open>The fixed bytes of a key: the bytes at the odd positions, in order.\<close>

definition fixed_bytes :: "string \<Rightarrow> string" where
  "fixed_bytes k = map (\<lambda>i. k ! (2 * i + 1)) [0..<8]"

definition serial_bytes :: "string \<Rightarrow> string" where
  "serial_bytes k = map (\<lambda>i. k ! (2 * i)) [0..<8]"

section \<open>The decryption worker\<close>

text \<open>
  Modelled from the spec: the worker process \<open>emotiv.decryptor\<close>, which
  \<open>setupEncryption\<close> starts on the two queues, is not part of \<open>epoc.py\<close>. Following the
  spec (4.2, 5 and 7) it takes the raw frames of the input queue in order, decrypts each
  one, appends the decoded frame to the output queue, and on a frame that fails to decrypt
  logs the fault and drops the frame. The cipher \<open>dec\<close> is a parameter (\<open>None\<close> is the
  fault), the log is the list of the dropped raw frames, and the worker keeps pace with the
  caller: what the caller has put on the input queue is processed before the caller looks
  at the output queue again. Under this discipline \<open>output_queue.join()\<close> has nothing
  left to wait for.
\<close>

fun decryptor :: "(raw \<Rightarrow> bits option) \<Rightarrow> raw list \<Rightarrow> bits list \<times> raw list \<Rightarrow> bits list \<times> raw list" where
  "decryptor dec [] (outq, log) = (outq, log)"
| "decryptor dec (r # inq) (outq, log) =
     (case dec r of
        None \<Rightarrow> decryptor dec inq (outq, log @ [r])
      | Some f \<Rightarrow> decryptor dec inq (outq @ [f], log))"

definition run_worker :: "(raw \<Rightarrow> bits option) \<Rightarrow> session \<times> raw list \<Rightarrow> session \<times> raw list" where
  "run_worker dec sl =
     (let (outq, log) = decryptor dec (input_queue (fst sl)) (output_queue (fst sl), snd sl)
      in ((fst sl)\<lparr>input_queue := [], output_queue := outq\<rparr>, log))"

definition input_put :: "(raw \<Rightarrow> bits option) \<Rightarrow> raw \<Rightarrow> session \<times> raw list \<Rightarrow> session \<times> raw list" where
  "input_put dec r sl =
     run_worker dec ((fst sl)\<lparr>input_queue := input_queue (fst sl) @ [r]\<rparr>, snd sl)"

section \<open>The acquisition loop\<close>

text \<open>
  The device is the list of what its next \<open>read(32)\<close> calls deliver, a raw frame or a
  \<open>usb.USBError\<close> with its \<open>errno\<close>; when the list is used up the read blocks for good
  and the call does not return (\<open>None\<close>). The loop, with the session and the worker's log:
  \<^verbatim>\<open>
  while self.output_queue.qsize() != totalSamples:
      try:
          self.input_queue.put(self.endpoint.read(32))
      except usb.USBError as e:
          if e.errno == 110:
              raise EPOCTurnedOffError(...)
          else:
              raise EPOCUSBError(...)
  \<close>
\<close>

datatype read_result = Frame raw | USBError int

fun acquire_loop ::
  "(raw \<Rightarrow> bits option) \<Rightarrow> int \<Rightarrow> read_result list \<Rightarrow> session \<times> raw list \<Rightarrow>
     ((error + unit) \<times> (session \<times> raw list) \<times> read_result list) option" where
  "acquire_loop dec totalSamples [] sl =
     (if int (length (output_queue (fst sl))) \<noteq> totalSamples then None
      else Some (Inr (), sl, []))"
| "acquire_loop dec totalSamples (x # dev) sl =
     (if int (length (output_queue (fst sl))) \<noteq> totalSamples then
        (case x of
           Frame r \<Rightarrow> acquire_loop dec totalSamples dev (input_put dec r sl)
         | USBError errno \<Rightarrow>
             if errno = 110 then Some (Inl EPOCTurnedOffError, sl, dev)
             else Some (Inl (EPOCUSBError errno), sl, dev))
      else Some (Inr (), sl, x # dev))"

section \<open>Filling the sample matrix\<close>

text \<open>
  \<open>eeg_data\<close> is a list of rows. Its entries are the unsigned values of bit fields of at
  most 14 bits, which numpy's float64 cells hold exactly; they are kept as naturals.
  An assignment \<open>eeg_data[i, j] = v\<close> outside the matrix raises.
\<close>

type_synonym matrix = "nat list list"

definition zeros :: "nat \<Rightarrow> nat \<Rightarrow> matrix" where
  "zeros r c = replicate r (replicate c 0)"

definition set_entry :: "matrix \<Rightarrow> nat \<Rightarrow> nat \<Rightarrow> nat \<Rightarrow> error + matrix" where
  "set_entry m i j v =
     (if i < length m \<and> j < length (m ! i) then Inr (m[i := (m ! i)[j := v]])
      else Inl IndexError)"

definition read_field :: "(string \<rightharpoonup> slice) \<Rightarrow> string \<Rightarrow> bits \<Rightarrow> error + nat" where
  "read_field sls name bs =
     (case sls name of
        None \<Rightarrow> Inl (KeyError name)
      | Some sl \<Rightarrow> uint (slice_bits sl bs))"

text \<open>
  \<^verbatim>\<open>
  for i, chName in enumerate(channelMask):
      eeg_data[i+1, spl] = bits[self.slices[chName]].uint
  \<close>
\<close>

fun fill_channels ::
  "(string \<rightharpoonup> slice) \<Rightarrow> bits \<Rightarrow> nat \<Rightarrow> nat \<Rightarrow> string list \<Rightarrow> matrix \<Rightarrow> error + matrix" where
  "fill_channels sls bs spl i [] m = Inr m"
| "fill_channels sls bs spl i (chName # rest) m =
     (case read_field sls chName bs of
        Inl e \<Rightarrow> Inl e
      | Inr v \<Rightarrow>
          (case set_entry m (i + 1) spl v of
             Inl e \<Rightarrow> Inl e
           | Inr m' \<Rightarrow> fill_channels sls bs spl (i + 1) rest m'))"

text \<open>
  \<^verbatim>\<open>
  for spl in xrange(self.output_queue.qsize()):
      bits = self.output_queue.get()
      eeg_data[0, spl] = bits[self.slices["SEQ#"]].uint
      for i, chName in enumerate(channelMask): ...
  \<close>
  The queue is the third argument; the result carries what is left of it, which on an
  exception is everything behind the frame that was being parsed.
\<close>

fun fill_samples ::
  "(string \<rightharpoonup> slice) \<Rightarrow> string list \<Rightarrow> nat \<Rightarrow> bits list \<Rightarrow> matrix \<Rightarrow> (error + matrix) \<times> bits list" where
  "fill_samples sls channelMask spl [] m = (Inr m, [])"
| "fill_samples sls channelMask spl (bs # q) m =
     (case read_field sls ''SEQ#'' bs of
        Inl e \<Rightarrow> (Inl e, q)
      | Inr v \<Rightarrow>
          (case set_entry m 0 spl v of
             Inl e \<Rightarrow> (Inl e, q)
           | Inr m0 \<Rightarrow>
               (case fill_channels sls bs spl 0 channelMask m0 of
                  Inl e \<Rightarrow> (Inl e, q)
                | Inr m' \<Rightarrow> fill_samples sls channelMask (spl + 1) q m')))"

section \<open>Saving\<close>

text \<open>
  \<open>savemat\<close> is outside the module; the model records the file name and the dictionary
  handed to it. A later channel of the same name replaces the earlier entry, as in the
  Python dictionary.
\<close>

fun join_names :: "string \<Rightarrow> string list \<Rightarrow> string" where
  "join_names sep [] = []"
| "join_names sep [x] = x"
| "join_names sep (x # y # ys) = x @ sep @ join_names sep (y # ys)"

fun matlab_rows :: "nat \<Rightarrow> string list \<Rightarrow> matrix \<Rightarrow> (string \<rightharpoonup> nat list) \<Rightarrow> (string \<rightharpoonup> nat list)" where
  "matlab_rows i [] m d = d"
| "matlab_rows i (chName # rest) m d = matlab_rows (i + 1) rest m (d(chName \<mapsto> m ! (i + 1)))"

definition save_data :: "string option \<Rightarrow> string list \<Rightarrow> matrix \<Rightarrow> (string \<times> (string \<rightharpoonup> nat list)) option" where
  "save_data savePrefix channelMask m =
     (case savePrefix of
        None \<Rightarrow> None
      | Some p \<Rightarrow>
          if p = [] then None
          else Some (p @ ''-'' @ join_names ''-'' channelMask @ ''.mat'',
                     matlab_rows 0 channelMask m [''SEQ'' \<mapsto> m ! 0]))"

section \<open>\<open>acquireData\<close> and \<open>getContactQuality\<close>\<close>

text \<open>
  A call runs the acquisition loop, then \<open>self.output_queue.join()\<close>, then allocates
  \<open>np.zeros((len(channelMask)+1, self.output_queue.qsize()))\<close>, parses the queue into it
  and saves it when \<open>savePrefix\<close> is neither \<open>None\<close> nor empty. Whether \<open>join()\<close>
  returns is decided by the worker alone; it is the barrier of the spec, at which the
  worker has processed all that was submitted. The outcome of a call holds the matrix or
  the exception, the session after the call, the worker's fault log, what the device has
  not delivered yet, and the file handed to \<open>savemat\<close>. A call that does not return has
  no outcome.
\<close>

record outcome =
  result :: "error + matrix"
  after :: session
  fault_log :: "raw list"
  device_left :: "read_result list"
  saved :: "(string \<times> (string \<rightharpoonup> nat list)) option"

definition acquireData ::
  "(raw \<Rightarrow> bits option) \<Rightarrow> session \<Rightarrow> raw list \<Rightarrow> read_result list \<Rightarrow>
     int \<Rightarrow> string list \<Rightarrow> string option \<Rightarrow> outcome option" where
  "acquireData dec s log dev duration channelMask savePrefix =
     (let totalSamples = duration * sampling_rate s in
      case acquire_loop dec totalSamples dev (s, log) of
        None \<Rightarrow> None
      | Some (Inl e, (s1, log1), dev1) \<Rightarrow>
          Some \<lparr> result = Inl e, after = s1, fault_log = log1, device_left = dev1,
                 saved = None \<rparr>
      | Some (Inr u, sl1, dev1) \<Rightarrow>
          (let (s2, log2) = run_worker dec sl1;
               eeg_data = zeros (length channelMask + 1) (length (output_queue s2));
               (r, q) = fill_samples (slices s2) channelMask 0 (output_queue s2) eeg_data;
               s3 = s2\<lparr>output_queue := q\<rparr>
           in case r of
                Inl e \<Rightarrow>
                  Some \<lparr> result = Inl e, after = s3, fault_log = log2, device_left = dev1,
                         saved = None \<rparr>
              | Inr m \<Rightarrow>
                  Some \<lparr> result = Inr m, after = s3, fault_log = log2, device_left = dev1,
                         saved = save_data savePrefix channelMask m \<rparr>))"

definition getContactQuality :: "session \<Rightarrow> string \<Rightarrow> int option" where
  "getContactQuality s electrode = quality s electrode"

section \<open>Notions used to state the properties\<close>

text \<open>The value \<open>bits[self.slices[name]].uint\<close> when the slice exists and is not empty.\<close>

definition field_value :: "(string \<rightharpoonup> slice) \<Rightarrow> string \<Rightarrow> bits \<Rightarrow> nat" where
  "field_value sls name bs = uint_value (slice_bits (the (sls name)) bs)"

text \<open>
  The matrix the spec describes: row 0 holds the sequence numbers, rows \<open>1..k\<close> the fields
  of the requested channels in request order, one column per frame.
\<close>

definition spec_matrix :: "(string \<rightharpoonup> slice) \<Rightarrow> string list \<Rightarrow> bits list \<Rightarrow> matrix" where
  "spec_matrix sls channelMask frames =
     map (\<lambda>name. map (field_value sls name) frames) (''SEQ#'' # channelMask)"



text \<open>Two sessions that agree on everything but the two queues.\<close>

definition same_tables :: "session \<Rightarrow> session \<Rightarrow> bool" where
  "same_tables s s' =
     (channels s' = channels s \<and> quality s' = quality s \<and> cqOrder s' = cqOrder s \<and>
      slices s' = slices s \<and> sampling_rate s' = sampling_rate s \<and>
      serialNumber s' = serialNumber s \<and> decryption_key s' = decryption_key s \<and>
      packetLoss s' = packetLoss s \<and> counter s' = counter s \<and> battery s' = battery s \<and>
      gyroX s' = gyroX s \<and> gyroY s' = gyroY s)"


text \<open>
  A stand-in cipher for concrete runs: a 32-byte raw frame decodes to its 256 bits, most
  significant bit of each byte first, and a raw frame of any other length is a fault.
\<close>

definition byte_bits :: "char \<Rightarrow> bits" where
  "byte_bits c = (case c of Char b0 b1 b2 b3 b4 b5 b6 b7 \<Rightarrow> [b7, b6, b5, b4, b3, b2, b1, b0])"

definition plain_cipher :: "raw \<Rightarrow> bits option" where
  "plain_cipher r = (if length r = 32 then Some (concat (map byte_bits r)) else None)"

definition ones_frame :: raw where
  "ones_frame = replicate 32 (CHR 0xFF)"

section \<open>The worker and the acquisition loop\<close>

lemma decryptor_eq:
  "decryptor dec inq (outq, log) =
     (outq @ List.map_filter dec inq, log @ filter (\<lambda>r. dec r = None) inq)"
  by (induction inq arbitrary: outq log) (auto split: option.splits)

lemma run_worker_eq:
  "run_worker dec (s, log) =
     (s\<lparr>input_queue := [], output_queue := output_queue s @ List.map_filter dec (input_queue s)\<rparr>,
      log @ filter (\<lambda>r. dec r = None) (input_queue s))"
  by (simp add: run_worker_def decryptor_eq)

lemma input_put_eq:
  "input_queue s = [] \<Longrightarrow> input_put dec r (s, log) =
     (s\<lparr>input_queue := [], output_queue := output_queue s @ List.map_filter dec [r]\<rparr>,
      log @ filter (\<lambda>r. dec r = None) [r])"
  by (simp add: input_put_def run_worker_eq)

lemma idle_session: "input_queue s = [] \<Longrightarrow> s\<lparr>input_queue := [], output_queue := output_queue s\<rparr> = s"
  by (cases s) simp

lemma acquire_loop_done:
  "int (length (output_queue (fst sl))) = tot \<Longrightarrow> acquire_loop dec tot dev sl = Some (Inr (), sl, dev)"
  by (cases dev) simp_all

lemma acquire_loop_complete:
  assumes "input_queue s = []"
      and "int (length (output_queue s)) + int (length (List.map_filter dec rs)) = tot"
      and "rs \<noteq> [] \<Longrightarrow> dec (last rs) \<noteq> None"
  shows "acquire_loop dec tot (map Frame rs @ rest) (s, log) =
           Some (Inr (),
                 (s\<lparr>input_queue := [], output_queue := output_queue s @ List.map_filter dec rs\<rparr>,
                  log @ filter (\<lambda>r. dec r = None) rs),
                 rest)"
  using assms
proof (induction rs arbitrary: s log)
  case Nil
  then show ?case
    by (simp add: acquire_loop_done idle_session)
next
  case (Cons r rs)
  have good: "List.map_filter dec (r # rs) \<noteq> []"
  proof -
    from Cons.prems(3) obtain f where "dec (last (r # rs)) = Some f" by auto
    moreover have "last (r # rs) \<in> set (r # rs)" by (rule last_in_set) simp
    ultimately have "f \<in> set (List.map_filter dec (r # rs))"
      unfolding List.map_filter_def by force
    then show ?thesis by auto
  qed
  then have ne: "int (length (output_queue s)) \<noteq> tot"
    using Cons.prems(2) by (cases "List.map_filter dec (r # rs)") auto
  let ?s' = "s\<lparr>input_queue := [], output_queue := output_queue s @ List.map_filter dec [r]\<rparr>"
  let ?log' = "log @ filter (\<lambda>r. dec r = None) [r]"
  have step: "acquire_loop dec tot (map Frame (r # rs) @ rest) (s, log) =
              acquire_loop dec tot (map Frame rs @ rest) (?s', ?log')"
    using ne Cons.prems(1) by (simp add: input_put_eq)
  have mf: "List.map_filter dec (r # rs) = List.map_filter dec [r] @ List.map_filter dec rs"
    by (simp add: List.map_filter_def)
  have "acquire_loop dec tot (map Frame rs @ rest) (?s', ?log') =
          Some (Inr (),
                (?s'\<lparr>input_queue := [], output_queue := output_queue ?s' @ List.map_filter dec rs\<rparr>,
                 ?log' @ filter (\<lambda>r. dec r = None) rs),
                rest)"
  proof (rule Cons.IH)
    show "input_queue ?s' = []" by simp
    show "int (length (output_queue ?s')) + int (length (List.map_filter dec rs)) = tot"
      using Cons.prems(2) by (simp split: option.splits)
    show "rs \<noteq> [] \<Longrightarrow> dec (last rs) \<noteq> None"
      using Cons.prems(3) by simp
  qed
  then show ?case
    unfolding step by (simp split: option.splits)
qed

section \<open>The matrix that the parsing loops build\<close>

lemma fill_channels_ok:
  assumes "\<forall>name \<in> set rest. read_field sls name bs = Inr (g name)"
      and "length A = i + 1"
      and "length Rs = length rest"
      and "\<forall>row \<in> set Rs. spl < length row"
  shows "fill_channels sls bs spl i rest (A @ Rs) =
           Inr (A @ map2 (\<lambda>row name. row[spl := g name]) Rs rest)"
  using assms
proof (induction rest arbitrary: A Rs i)
  case Nil
  then show ?case by simp
next
  case (Cons chName rest)
  from Cons.prems(3) obtain R Rs' where Rs: "Rs = R # Rs'" and len: "length Rs' = length rest"
    by (cases Rs) auto
  have rd: "read_field sls chName bs = Inr (g chName)"
    using Cons.prems(1) by simp
  have R: "spl < length R"
    using Cons.prems(4) Rs by simp
  have se: "set_entry (A @ R # Rs') (i + 1) spl (g chName) = Inr ((A @ [R[spl := g chName]]) @ Rs')"
    using Cons.prems(2) R by (simp add: set_entry_def nth_append list_update_append)
  have "fill_channels sls bs spl (i + 1) rest ((A @ [R[spl := g chName]]) @ Rs') =
          Inr ((A @ [R[spl := g chName]]) @ map2 (\<lambda>row name. row[spl := g name]) Rs' rest)"
  proof (rule Cons.IH)
    show "\<forall>name\<in>set rest. read_field sls name bs = Inr (g name)"
      using Cons.prems(1) by simp
    show "length (A @ [R[spl := g chName]]) = i + 1 + 1"
      using Cons.prems(2) by simp
    show "length Rs' = length rest" by (rule len)
    show "\<forall>row\<in>set Rs'. spl < length row"
      using Cons.prems(4) Rs by simp
  qed
  then show ?case
    using rd se Rs by simp
qed

lemma take_Suc_update:
  "spl < length row \<Longrightarrow> take (Suc spl) (row[spl := x]) = take spl row @ [x]"
  by (simp add: take_Suc_conv_app_nth)

lemma fill_samples_ok:
  assumes "\<forall>bs \<in> set q. \<forall>name \<in> set (''SEQ#'' # channelMask). read_field sls name bs = Inr (g name bs)"
      and "length m = length channelMask + 1"
      and "\<forall>row \<in> set m. length row = spl + length q"
  shows "fill_samples sls channelMask spl q m =
           (Inr (map2 (\<lambda>row name. take spl row @ map (g name) q) m (''SEQ#'' # channelMask)), [])"
  using assms
proof (induction q arbitrary: spl m)
  case Nil
  have "map2 (\<lambda>row name. take spl row @ map (g name) []) m (''SEQ#'' # channelMask) = m"
    using Nil.prems(2,3)
    by - (rule nth_equalityI, simp_all)
  then show ?case by simp
next
  case (Cons bs q)
  from Cons.prems(2) obtain R0 Rs where m: "m = R0 # Rs" and len: "length Rs = length channelMask"
    by (cases m) auto
  have spl_R0: "spl < length R0" and spl_Rs: "\<forall>row \<in> set Rs. spl < length row"
    using Cons.prems(3) m by simp_all
  have rd: "read_field sls ''SEQ#'' bs = Inr (g ''SEQ#'' bs)"
    using Cons.prems(1) by simp
  have se: "set_entry m 0 spl (g ''SEQ#'' bs) = Inr ([R0[spl := g ''SEQ#'' bs]] @ Rs)"
    using m spl_R0 by (simp add: set_entry_def)
  let ?m1 = "map2 (\<lambda>row name. row[spl := g name bs]) m (''SEQ#'' # channelMask)"
  have fc: "fill_channels sls bs spl 0 channelMask ([R0[spl := g ''SEQ#'' bs]] @ Rs) = Inr ?m1"
  proof -
    have "fill_channels sls bs spl 0 channelMask ([R0[spl := g ''SEQ#'' bs]] @ Rs) =
            Inr ([R0[spl := g ''SEQ#'' bs]] @ map2 (\<lambda>row name. row[spl := (\<lambda>name. g name bs) name]) Rs channelMask)"
      by (rule fill_channels_ok) (use Cons.prems(1) len spl_Rs in simp_all)
    then show ?thesis using m by simp
  qed
  have ih: "fill_samples sls channelMask (spl + 1) q ?m1 =
          (Inr (map2 (\<lambda>row name. take (spl + 1) row @ map (g name) q) ?m1 (''SEQ#'' # channelMask)), [])"
  proof (rule Cons.IH)
    show "\<forall>bs\<in>set q. \<forall>name\<in>set (''SEQ#'' # channelMask). read_field sls name bs = Inr (g name bs)"
      using Cons.prems(1) by simp
    show "length ?m1 = length channelMask + 1"
      using Cons.prems(2) by simp
    show "\<forall>row\<in>set ?m1. length row = spl + 1 + length q"
      using Cons.prems(3) by (auto simp: set_zip)
  qed
  have final: "map2 (\<lambda>row name. take (spl + 1) row @ map (g name) q) ?m1 (''SEQ#'' # channelMask) =
               map2 (\<lambda>row name. take spl row @ map (g name) (bs # q)) m (''SEQ#'' # channelMask)"
  proof (rule nth_equalityI)
    show "length (map2 (\<lambda>row name. take (spl + 1) row @ map (g name) q) ?m1 (''SEQ#'' # channelMask)) =
          length (map2 (\<lambda>row name. take spl row @ map (g name) (bs # q)) m (''SEQ#'' # channelMask))"
      by simp
  next
    fix i
    assume "i < length (map2 (\<lambda>row name. take (spl + 1) row @ map (g name) q) ?m1 (''SEQ#'' # channelMask))"
    then have i: "i < length m" "i < length (''SEQ#'' # channelMask)"
      by simp_all
    then have "spl < length (m ! i)"
      using Cons.prems(3) by (metis add_Suc_right length_Cons less_add_Suc1 nth_mem)
    then show "map2 (\<lambda>row name. take (spl + 1) row @ map (g name) q) ?m1 (''SEQ#'' # channelMask) ! i =
               map2 (\<lambda>row name. take spl row @ map (g name) (bs # q)) m (''SEQ#'' # channelMask) ! i"
      using i by (simp add: take_Suc_update del: nth_Cons_Suc)
  qed
  show ?case
    using rd se fc ih final by simp
qed

lemma fill_samples_zeros:
  assumes "\<forall>bs \<in> set q. \<forall>name \<in> set (''SEQ#'' # channelMask). read_field sls name bs = Inr (g name bs)"
  shows "fill_samples sls channelMask 0 q (zeros (length channelMask + 1) (length q)) =
           (Inr (map (\<lambda>name. map (g name) q) (''SEQ#'' # channelMask)), [])"
proof -
  have "fill_samples sls channelMask 0 q (zeros (length channelMask + 1) (length q)) =
          (Inr (map2 (\<lambda>row name. take 0 row @ map (g name) q) (zeros (length channelMask + 1) (length q)) (''SEQ#'' # channelMask)), [])"
    by (rule fill_samples_ok) (use assms in \<open>simp_all add: zeros_def\<close>)
  moreover have "map2 (\<lambda>row name. take 0 row @ map (g name) q) (zeros (length names) (length q)) names
                 = map (\<lambda>name. map (g name) q) names" for names :: "string list"
    by (rule nth_equalityI) (simp_all add: zeros_def)
  from this [of "''SEQ#'' # channelMask"]
  have "map2 (\<lambda>row name. take 0 row @ map (g name) q) (zeros (length channelMask + 1) (length q)) (''SEQ#'' # channelMask)
          = map (\<lambda>name. map (g name) q) (''SEQ#'' # channelMask)"
    by simp
  ultimately show ?thesis by simp
qed

section \<open>Reading fields of well-formed frames\<close>

lemma slices_init_cases:
  "slices_init name = Some sl \<Longrightarrow> fst sl < snd sl \<and> fst sl < 256"
  by (auto simp: slices_init_def slices_gyro2_def slices_gyro1_def slices_channels_def
        channels_list_def channel_slices_def split: if_splits)

lemma read_field_init:
  assumes "slices_init name = Some sl" and "length bs = 256"
  shows "read_field slices_init name bs = Inr (field_value slices_init name bs)"
proof -
  have "fst sl < snd sl" "fst sl < 256"
    using slices_init_cases [OF assms(1)] by simp_all
  then have "slice_bits sl bs \<noteq> []"
    using assms(2) by (simp add: slice_bits_def)
  then show ?thesis
    using assms(1) by (simp add: read_field_def uint_def field_value_def)
qed

lemma channels_in_slices:
  "name \<in> set channels_list \<Longrightarrow> \<exists>sl. slices_init name = Some sl"
  by (auto simp: slices_init_def slices_gyro2_def slices_gyro1_def slices_channels_def
        channels_list_def channel_slices_def)

lemma seq_slice: "slices_init ''SEQ#'' = Some (0, 8)"
  by (simp add: slices_init_def)



section \<open>A complete run of \<open>acquireData\<close>\<close>

lemma acquireData_run:
  assumes idle: "input_queue s = []"
      and cnt: "int (length (output_queue s)) + int (length (List.map_filter dec rs)) = duration * sampling_rate s"
      and lst: "rs \<noteq> [] \<Longrightarrow> dec (last rs) \<noteq> None"
      and rd: "\<forall>bs \<in> set (output_queue s @ List.map_filter dec rs).
                 \<forall>name \<in> set (''SEQ#'' # channelMask). read_field (slices s) name bs = Inr (g name bs)"
  shows "acquireData dec s log (map Frame rs @ rest) duration channelMask savePrefix =
           Some \<lparr> result = Inr (map (\<lambda>name. map (g name) (output_queue s @ List.map_filter dec rs)) (''SEQ#'' # channelMask)),
                  after = s\<lparr>input_queue := [], output_queue := []\<rparr>,
                  fault_log = log @ filter (\<lambda>r. dec r = None) rs,
                  device_left = rest,
                  saved = save_data savePrefix channelMask
                    (map (\<lambda>name. map (g name) (output_queue s @ List.map_filter dec rs)) (''SEQ#'' # channelMask)) \<rparr>"
proof -
  let ?q = "output_queue s @ List.map_filter dec rs"
  have loop: "acquire_loop dec (duration * sampling_rate s) (map Frame rs @ rest) (s, log) =
           Some (Inr (),
                 (s\<lparr>input_queue := [], output_queue := ?q\<rparr>,
                  log @ filter (\<lambda>r. dec r = None) rs),
                 rest)"
    by (rule acquire_loop_complete [OF idle cnt lst])
  have fill: "fill_samples (slices s) channelMask 0 ?q (zeros (length channelMask + 1) (length ?q)) =
           (Inr (map (\<lambda>name. map (g name) ?q) (''SEQ#'' # channelMask)), [])"
    by (rule fill_samples_zeros [OF rd])
  show ?thesis
    unfolding acquireData_def Let_def loop
    using fill by (simp add: run_worker_eq del: list.map)
qed

section \<open>What \<open>acquireData\<close> leaves alone\<close>

lemma same_tables_refl: "same_tables s s"
  by (simp add: same_tables_def)

lemma same_tables_trans: "same_tables s s' \<Longrightarrow> same_tables s' s'' \<Longrightarrow> same_tables s s''"
  by (simp add: same_tables_def)

lemma same_tables_run_worker: "same_tables (fst sl) (fst (run_worker dec sl))"
  by (cases sl) (simp add: run_worker_eq same_tables_def)

lemma same_tables_input_put: "same_tables (fst sl) (fst (input_put dec r sl))"
  by (cases sl) (simp add: input_put_def run_worker_eq same_tables_def)

lemma acquire_loop_same_tables:
  "acquire_loop dec tot dev sl = Some (r, sl', dev') \<Longrightarrow> same_tables (fst sl) (fst sl')"
proof (induction dev arbitrary: sl)
  case Nil
  then show ?case by (auto simp: same_tables_refl split: if_splits)
next
  case (Cons x dev)
  show ?case
  proof (cases "int (length (output_queue (fst sl))) \<noteq> tot")
    case False
    with Cons.prems show ?thesis by (auto simp: same_tables_refl)
  next
    case True
    show ?thesis
    proof (cases x)
      case (Frame raw)
      with True Cons.prems have "acquire_loop dec tot dev (input_put dec raw sl) = Some (r, sl', dev')"
        by simp
      from Cons.IH [OF this] same_tables_input_put [of sl dec raw] show ?thesis
        by (blast intro: same_tables_trans)
    next
      case (USBError errno)
      with True Cons.prems show ?thesis by (auto simp: same_tables_refl split: if_splits)
    qed
  qed
qed

lemma acquireData_same_tables:
  assumes "acquireData dec s log dev duration channelMask savePrefix = Some out"
  shows "same_tables s (after out)"
proof (cases "acquire_loop dec (duration * sampling_rate s) dev (s, log)")
  case None
  with assms show ?thesis by (simp add: acquireData_def)
next
  case (Some t)
  obtain r sl1 dev1 where t: "t = (r, sl1, dev1)" by (cases t) auto
  have st1: "same_tables s (fst sl1)"
    using acquire_loop_same_tables [of dec _ dev "(s, log)" r sl1 dev1] Some t by simp
  show ?thesis
  proof (cases r)
    case (Inl e)
    with assms Some t st1 show ?thesis
      by (cases sl1) (auto simp: acquireData_def)
  next
    case (Inr u)
    obtain s2 log2 where w: "run_worker dec sl1 = (s2, log2)" by (cases "run_worker dec sl1") auto
    have st2: "same_tables s s2"
      using st1 same_tables_run_worker [of sl1 dec] w by (auto intro: same_tables_trans)
    have st3: "same_tables s (s2\<lparr>output_queue := q\<rparr>)" for q
      using st2 by (simp add: same_tables_def)
    from assms Some t Inr w show ?thesis
      by (auto simp: acquireData_def Let_def st3 split: prod.splits sum.splits)
  qed
qed

section \<open>Device read errors\<close>











section \<open>The stand-in cipher\<close>

lemma length_byte_bits: "length (byte_bits c) = 8"
  by (cases c) (simp add: byte_bits_def)

lemma length_concat_byte_bits: "length (concat (map byte_bits r)) = 8 * length r"
  by (induction r) (simp_all add: length_byte_bits)

lemma plain_cipher_256: "plain_cipher r = Some f \<Longrightarrow> length f = 256"
  by (auto simp: plain_cipher_def length_concat_byte_bits split: if_splits)


lemma map_filter_replicate:
  "List.map_filter f (replicate n x) = (case f x of None \<Rightarrow> [] | Some y \<Rightarrow> replicate n y)"
  by (induction n) (simp_all split: option.splits)

lemma map_filter_sound: "f \<in> set (List.map_filter dec rs) \<Longrightarrow> \<exists>r. dec r = Some f"
  unfolding List.map_filter_def by auto

lemma decoded_frame_length:
  assumes wf: "\<forall>r f. dec r = Some f \<longrightarrow> length f = 256" and "bs \<in> set (List.map_filter dec rs)"
  shows  "length bs = 256"
proof -
  from map_filter_sound [OF assms(2)] obtain r where "dec r = Some bs" ..
  with wf show ?thesis by simp
qed

lemma requested_names_in_slices:
  assumes name: "name \<in> set (''SEQ#'' # channelMask)" and mask: "set channelMask \<subseteq> set channels_list"
  shows "\<exists>sl. slices_init name = Some sl"
proof (cases "name = ''SEQ#''")
  case True
  then show ?thesis using seq_slice by simp
next
  case False
  with name have "name \<in> set channelMask" by simp
  with mask have "name \<in> set channels_list" by (rule_tac subsetD)
  then show ?thesis by (rule channels_in_slices)
qed




lemma plain_cipher_ones: "plain_cipher ones_frame \<noteq> None"
  by (simp add: plain_cipher_def ones_frame_def)


lemma plain_cipher_wf: "\<forall>r f. plain_cipher r = Some f \<longrightarrow> length f = 256"
  using plain_cipher_256 by blast

lemma enough_replicate:
  "dec r \<noteq> None \<Longrightarrow> length (List.map_filter dec (replicate n r)) = n"
  by (auto simp: map_filter_replicate)

section \<open>The claims\<close>



lemma cqOrder_init_length: "length cqOrder_init = 129"
  by code_simp

lemma cqOrder_init_head: "take 16 cqOrder_init = cqOrder_head"
  by code_simp

lemma cqOrder_init_gap: "take 48 (drop 16 cqOrder_init) = replicate 48 None"
  by code_simp

lemma cqOrder_init_repeat: "take 16 (drop 64 cqOrder_init) = cqOrder_head"
  by code_simp

lemma cqOrder_init_tail:
  "take 48 (drop 80 cqOrder_init) = concat (replicate 12 (take 4 (drop 80 cqOrder_init)))"
  by code_simp

lemma cqOrder_init_block:
  "take 4 (drop 80 cqOrder_init) = [Some ''FC6'', Some ''F4'', Some ''F8'', Some ''AF4'']"
  by code_simp

lemma cqOrder_init_extra: "drop 128 cqOrder_init = [Some ''FC6'']"
  by code_simp

text \<open>
  C1. The contact quality ordering built by \<open>__init__\<close> has 129 entries, not 128: after
  the head (16), the gap (48), the repeated head (16) and the appended \<open>FC6\<close>, the last
  four entries are repeated 12 times and fill the indices 81 to 128. The entries 0 to 127
  are as described: 16 to 63 are \<open>None\<close>, 64 to 79 repeat the head, and 80 to 127 are
  the block \<open>FC6, F4, F8, AF4\<close> 12 times. The entry 128 is one more \<open>FC6\<close>.
\<close>

theorem cqOrder_has_129_entries:
  "length (cqOrder (EPOC_init sn)) = 129
   \<and> take 16 (cqOrder (EPOC_init sn)) = cqOrder_head
   \<and> take 48 (drop 16 (cqOrder (EPOC_init sn))) = replicate 48 None
   \<and> take 16 (drop 64 (cqOrder (EPOC_init sn))) = cqOrder_head
   \<and> take 4 (drop 80 (cqOrder (EPOC_init sn))) = [Some ''FC6'', Some ''F4'', Some ''F8'', Some ''AF4'']
   \<and> take 48 (drop 80 (cqOrder (EPOC_init sn))) =
       concat (replicate 12 (take 4 (drop 80 (cqOrder (EPOC_init sn)))))
   \<and> drop 128 (cqOrder (EPOC_init sn)) = [Some ''FC6'']"
proof -
  have "cqOrder (EPOC_init sn) = cqOrder_init" by (simp add: EPOC_init_def)
  then show ?thesis
    using cqOrder_init_length cqOrder_init_head cqOrder_init_gap cqOrder_init_repeat
      cqOrder_init_tail cqOrder_init_block cqOrder_init_extra
    by simp
qed

lemma slices_init_width:
  "ch \<in> set channels_list \<Longrightarrow> \<exists>a b. slices_init ch = Some (a, b) \<and> b = a + 14"
  by (auto simp: slices_init_def slices_gyro2_def slices_gyro1_def slices_channels_def
        channels_list_def channel_slices_def)

lemma channels_list_distinct: "distinct channels_list \<and> length channels_list = 14"
  by (simp add: channels_list_def)

lemma setupEncryption_slices: "setupEncryption s r = Inr s' \<Longrightarrow> slices s' = slices s"
  by (auto simp: setupEncryption_def split: sum.splits)

text \<open>
  C8. Each of the 14 channel names has a slice of exactly 14 bits, the sequence number has
  the slice \<open>[0, 8)\<close>, and neither \<open>acquireData\<close> nor \<open>setupEncryption\<close> changes the
  table of slices.
\<close>

theorem channel_slices_span_14_bits:
  "(\<forall>ch \<in> set (channels (EPOC_init sn)). \<exists>a b. slices (EPOC_init sn) ch = Some (a, b) \<and> b = a + 14)
   \<and> length (channels (EPOC_init sn)) = 14
   \<and> distinct (channels (EPOC_init sn))
   \<and> slices (EPOC_init sn) ''SEQ#'' = Some (0, 8)
   \<and> (\<forall>dec s log dev d channelMask savePrefix out.
         acquireData dec s log dev d channelMask savePrefix = Some out \<longrightarrow> slices (after out) = slices s)
   \<and> (\<forall>s research s'. setupEncryption s research = Inr s' \<longrightarrow> slices s' = slices s)"
proof -
  have "\<forall>ch \<in> set (channels (EPOC_init sn)). \<exists>a b. slices (EPOC_init sn) ch = Some (a, b) \<and> b = a + 14"
    using slices_init_width by (simp add: EPOC_init_def)
  moreover have "length (channels (EPOC_init sn)) = 14" "distinct (channels (EPOC_init sn))"
    using channels_list_distinct by (simp_all add: EPOC_init_def)
  moreover have "slices (EPOC_init sn) ''SEQ#'' = Some (0, 8)"
    using seq_slice by (simp add: EPOC_init_def)
  moreover have "\<forall>dec s log dev d channelMask savePrefix out.
         acquireData dec s log dev d channelMask savePrefix = Some out \<longrightarrow> slices (after out) = slices s"
    using acquireData_same_tables unfolding same_tables_def by blast
  moreover have "\<forall>s research s'. setupEncryption s research = Inr s' \<longrightarrow> slices s' = slices s"
    using setupEncryption_slices by blast
  ultimately show ?thesis by blast
qed

lemma usb_error_run:
  "acquireData dec (EPOC_init sn) log [USBError errno] 1 channelMask savePrefix =
     Some \<lparr> result = Inl (if errno = 110 then EPOCTurnedOffError else EPOCUSBError errno),
            after = EPOC_init sn, fault_log = log, device_left = [], saved = None \<rparr>"
  by (simp add: acquireData_def EPOC_init_def)

text \<open>The channel \<open>O2\<close>, a call that ends in a read error and a key derivation.\<close>

theorem channel_slices_span_14_bits_witness:
  "(\<exists>a b. slices (EPOC_init None) ''O2'' = Some (a, b) \<and> b = a + 14)
   \<and> slices (EPOC_init None) ''SEQ#'' = Some (0, 8)
   \<and> slices (after (the (acquireData plain_cipher (EPOC_init None) [] [USBError 5] 1 [''O2''] None)))
        = slices (EPOC_init None)
   \<and> (\<exists>s'. setupEncryption (EPOC_init (Some ''SN20120229000459'')) True = Inr s'
          \<and> slices s' = slices (EPOC_init (Some ''SN20120229000459'')))"
proof -
  note t = channel_slices_span_14_bits [of None]
  have "''O2'' \<in> set (channels (EPOC_init None))"
    by (simp add: EPOC_init_def channels_list_def)
  with t have 1: "\<exists>a b. slices (EPOC_init None) ''O2'' = Some (a, b) \<and> b = a + 14" by blast
  from t have 2: "slices (EPOC_init None) ''SEQ#'' = Some (0, 8)" by blast
  have run: "acquireData plain_cipher (EPOC_init None) [] [USBError 5] 1 [''O2''] None =
     Some (the (acquireData plain_cipher (EPOC_init None) [] [USBError 5] 1 [''O2''] None))"
    by (simp add: usb_error_run)
  from t have "\<forall>dec s log dev d channelMask savePrefix out.
         acquireData dec s log dev d channelMask savePrefix = Some out \<longrightarrow> slices (after out) = slices s"
    by blast
  with run have 3: "slices (after (the (acquireData plain_cipher (EPOC_init None) [] [USBError 5] 1 [''O2''] None)))
        = slices (EPOC_init None)" by blast
  obtain s' where s': "setupEncryption (EPOC_init (Some ''SN20120229000459'')) True = Inr s'"
    by (simp add: setupEncryption_def derive_key_def EPOC_init_def)
  from t have "\<forall>s research s'. setupEncryption s research = Inr s' \<longrightarrow> slices s' = slices s"
    by blast
  with s' have "slices s' = slices (EPOC_init (Some ''SN20120229000459''))" by blast
  with s' have 4: "\<exists>s'. setupEncryption (EPOC_init (Some ''SN20120229000459'')) True = Inr s'
          \<and> slices s' = slices (EPOC_init (Some ''SN20120229000459''))" by blast
  from 1 2 3 4 show ?thesis by blast
qed

text \<open>
  C9. The key \<open>GYROX\<close> is assigned twice, first \<open>[233, 240)\<close> and then \<open>[240, 248)\<close>; the
  second assignment replaces the first, no name keeps the slice \<open>[233, 240)\<close>, and the table
  has no entry \<open>GYROY\<close>.
\<close>

theorem gyrox_assigned_twice:
  "slices_gyro1 ''GYROX'' = Some (233, 240)
   \<and> slices_gyro2 = slices_gyro1(''GYROX'' \<mapsto> (240, 248))
   \<and> slices (EPOC_init sn) ''GYROX'' = Some (240, 248)
   \<and> slices (EPOC_init sn) ''GYROY'' = None
   \<and> (\<forall>name. slices (EPOC_init sn) name \<noteq> Some (233, 240))"
  by (simp add: EPOC_init_def slices_init_def slices_gyro2_def slices_gyro1_def slices_channels_def
        channels_list_def channel_slices_def)

lemma research_key_layout:
  "length (research_key sn) = 16
   \<and> serial_bytes (research_key sn) = [sn ! 15, sn ! 14, sn ! 13, sn ! 12, sn ! 15, sn ! 14, sn ! 13, sn ! 12]
   \<and> fixed_bytes (research_key sn) =
       [CHR 0x00, CHR 0x54, CHR 0x10, CHR 0x42, CHR 0x00, CHR 0x48, CHR 0x00, CHR 0x50]"
  by (simp add: research_key_def serial_bytes_def fixed_bytes_def upt_rec)

lemma consumer_key_layout:
  "length (consumer_key sn) = 16
   \<and> serial_bytes (consumer_key sn) = [sn ! 15, sn ! 14, sn ! 13, sn ! 12, sn ! 15, sn ! 14, sn ! 13, sn ! 12]
   \<and> fixed_bytes (consumer_key sn) =
       [CHR 0x00, CHR 0x48, CHR 0x00, CHR 0x54, CHR 0x10, CHR 0x42, CHR 0x00, CHR 0x50]"
  by (simp add: consumer_key_def serial_bytes_def fixed_bytes_def upt_rec)

lemma keys_differ_at:
  "filter (\<lambda>i. research_key sn ! i \<noteq> consumer_key sn ! i) [0..<16] = [3, 5, 7, 9, 11]"
  by (simp add: research_key_def consumer_key_def upt_rec)

text \<open>
  The research and the consumer key of one serial number differ in their second and in
  their third fixed byte (key positions 3 and 5), two neighbours, so not only in
  even-indexed ones however the fixed bytes are counted.
\<close>

theorem variants_differ_at_odd_fixed_byte:
  "derive_key (Some ''SN20120229000459'') True = Inr (research_key ''SN20120229000459'')
   \<and> derive_key (Some ''SN20120229000459'') False = Inr (consumer_key ''SN20120229000459'')
   \<and> fixed_bytes (research_key ''SN20120229000459'') ! 1 = CHR 0x54
   \<and> fixed_bytes (consumer_key ''SN20120229000459'') ! 1 = CHR 0x48
   \<and> fixed_bytes (research_key ''SN20120229000459'') ! 2 = CHR 0x10
   \<and> fixed_bytes (consumer_key ''SN20120229000459'') ! 2 = CHR 0x00
   \<and> research_key ''SN20120229000459'' ! 3 \<noteq> consumer_key ''SN20120229000459'' ! 3
   \<and> research_key ''SN20120229000459'' ! 5 \<noteq> consumer_key ''SN20120229000459'' ! 5"
  by (simp add: derive_key_def research_key_def consumer_key_def fixed_bytes_def upt_rec)

text \<open>
  C2 (amended). For a serial number of 16 characters both variants yield a key of 16 bytes;
  the even positions hold the serial characters at the offsets 15, 14, 13, 12, twice over,
  and are the same in both variants; the odd positions hold the eight fixed bytes of the
  variant; the two keys differ exactly at the positions 3, 5, 7, 9 and 11.
\<close>

theorem derive_key_layout:
  assumes "length sn = 16"
  shows "\<exists>kr kc. derive_key (Some sn) True = Inr kr \<and> derive_key (Some sn) False = Inr kc
           \<and> length kr = 16 \<and> length kc = 16
           \<and> serial_bytes kr = [sn ! 15, sn ! 14, sn ! 13, sn ! 12, sn ! 15, sn ! 14, sn ! 13, sn ! 12]
           \<and> serial_bytes kc = serial_bytes kr
           \<and> fixed_bytes kr = [CHR 0x00, CHR 0x54, CHR 0x10, CHR 0x42, CHR 0x00, CHR 0x48, CHR 0x00, CHR 0x50]
           \<and> fixed_bytes kc = [CHR 0x00, CHR 0x48, CHR 0x00, CHR 0x54, CHR 0x10, CHR 0x42, CHR 0x00, CHR 0x50]
           \<and> filter (\<lambda>i. kr ! i \<noteq> kc ! i) [0..<16] = [3, 5, 7, 9, 11]"
proof -
  have "derive_key (Some sn) True = Inr (research_key sn)"
    and "derive_key (Some sn) False = Inr (consumer_key sn)"
    using assms by (simp_all add: derive_key_def)
  then show ?thesis
    using research_key_layout [of sn] consumer_key_layout [of sn] keys_differ_at [of sn]
    by simp
qed

text \<open>The serial number \<open>SN20120229000459\<close>.\<close>

theorem derive_key_layout_witness:
  "length ''SN20120229000459'' = 16
   \<and> (\<exists>kr kc. derive_key (Some ''SN20120229000459'') True = Inr kr
         \<and> derive_key (Some ''SN20120229000459'') False = Inr kc
         \<and> serial_bytes kr = ''95409540'' \<and> serial_bytes kc = ''95409540''
         \<and> filter (\<lambda>i. kr ! i \<noteq> kc ! i) [0..<16] = [3, 5, 7, 9, 11])"
proof -
  have len: "length ''SN20120229000459'' = 16" by simp
  from derive_key_layout [OF len] obtain kr kc where
    h: "derive_key (Some ''SN20120229000459'') True = Inr kr"
       "derive_key (Some ''SN20120229000459'') False = Inr kc"
       "serial_bytes kr = [''SN20120229000459'' ! 15, ''SN20120229000459'' ! 14,
          ''SN20120229000459'' ! 13, ''SN20120229000459'' ! 12, ''SN20120229000459'' ! 15,
          ''SN20120229000459'' ! 14, ''SN20120229000459'' ! 13, ''SN20120229000459'' ! 12]"
       "serial_bytes kc = serial_bytes kr"
       "filter (\<lambda>i. kr ! i \<noteq> kc ! i) [0..<16] = [3, 5, 7, 9, 11]"
    by blast
  from h(3) have "serial_bytes kr = ''95409540''" by simp
  with h len show ?thesis by auto
qed




lemma plain_run:
  assumes mask: "set channelMask \<subseteq> set channels_list"
      and cnt: "length (List.map_filter plain_cipher rs) = 128"
      and lst: "plain_cipher (last rs) \<noteq> None"
  shows "acquireData plain_cipher (EPOC_init sn) log (map Frame rs @ rest) 1 channelMask savePrefix =
           Some \<lparr> result = Inr (spec_matrix slices_init channelMask (List.map_filter plain_cipher rs)),
                  after = EPOC_init sn,
                  fault_log = log @ filter (\<lambda>r. plain_cipher r = None) rs,
                  device_left = rest,
                  saved = save_data savePrefix channelMask
                    (spec_matrix slices_init channelMask (List.map_filter plain_cipher rs)) \<rparr>"
proof -
  let ?s = "EPOC_init sn"
  have idle: "input_queue ?s = []" and empty: "output_queue ?s = []"
    and tab: "slices ?s = slices_init"
    by (simp_all add: EPOC_init_def)
  have c: "int (length (output_queue ?s)) + int (length (List.map_filter plain_cipher rs)) = 1 * sampling_rate ?s"
    using cnt by (simp add: EPOC_init_def)
  have rd: "\<forall>bs \<in> set (output_queue ?s @ List.map_filter plain_cipher rs).
              \<forall>name \<in> set (''SEQ#'' # channelMask).
                read_field (slices ?s) name bs = Inr (field_value slices_init name bs)"
  proof (intro ballI)
    fix bs name
    assume bs: "bs \<in> set (output_queue ?s @ List.map_filter plain_cipher rs)"
      and name: "name \<in> set (''SEQ#'' # channelMask)"
    from bs empty have "bs \<in> set (List.map_filter plain_cipher rs)" by simp
    with plain_cipher_wf have len: "length bs = 256" by (rule decoded_frame_length)
    from requested_names_in_slices [OF name mask] obtain sl where "slices_init name = Some sl" ..
    from read_field_init [OF this len] tab
    show "read_field (slices ?s) name bs = Inr (field_value slices_init name bs)"
      by simp
  qed
  have unchanged: "(EPOC_init sn)\<lparr>input_queue := [], output_queue := []\<rparr> = EPOC_init sn"
    by (simp add: EPOC_init_def)
  from acquireData_run [OF idle c lst rd, of log rest savePrefix]
  show ?thesis
    by (simp add: unchanged empty spec_matrix_def del: list.map)
qed

lemma ones_run:
  assumes "set channelMask \<subseteq> set channels_list"
  shows "acquireData plain_cipher (EPOC_init sn) [] (replicate 128 (Frame ones_frame)) 1 channelMask None =
           Some \<lparr> result = Inr (spec_matrix slices_init channelMask
                                  (List.map_filter plain_cipher (replicate 128 ones_frame))),
                  after = EPOC_init sn,
                  fault_log = [],
                  device_left = [],
                  saved = None \<rparr>"
proof -
  have "acquireData plain_cipher (EPOC_init sn) [] (map Frame (replicate 128 ones_frame) @ []) 1 channelMask None =
           Some \<lparr> result = Inr (spec_matrix slices_init channelMask
                                  (List.map_filter plain_cipher (replicate 128 ones_frame))),
                  after = EPOC_init sn,
                  fault_log = [] @ filter (\<lambda>r. plain_cipher r = None) (replicate 128 ones_frame),
                  device_left = [],
                  saved = save_data None channelMask
                    (spec_matrix slices_init channelMask (List.map_filter plain_cipher (replicate 128 ones_frame))) \<rparr>"
    by (rule plain_run [OF assms])
       (simp_all add: enough_replicate plain_cipher_ones)
  then show ?thesis
    using plain_cipher_ones by (simp add: save_data_def)
qed

text \<open>
  C10. A call of \<open>acquireData\<close> that returns or raises leaves \<open>packetLoss\<close>, \<open>counter\<close>,
  \<open>battery\<close>, \<open>gyroX\<close>, \<open>gyroY\<close>, the quality map and the slices as they were, and the
  other tables and attributes with them; only the queues change.
\<close>

theorem acquireData_leaves_counters_and_tables:
  assumes "acquireData dec s log dev duration channelMask savePrefix = Some out"
  shows "packetLoss (after out) = packetLoss s \<and> counter (after out) = counter s
         \<and> battery (after out) = battery s \<and> gyroX (after out) = gyroX s
         \<and> gyroY (after out) = gyroY s \<and> quality (after out) = quality s
         \<and> slices (after out) = slices s \<and> cqOrder (after out) = cqOrder s
         \<and> channels (after out) = channels s \<and> sampling_rate (after out) = sampling_rate s
         \<and> serialNumber (after out) = serialNumber s
         \<and> decryption_key (after out) = decryption_key s"
  using acquireData_same_tables [OF assms] by (simp add: same_tables_def)

text \<open>One second of frames of all ones, channels \<open>O1\<close> and \<open>O2\<close>.\<close>

theorem acquireData_leaves_counters_and_tables_witness:
  "packetLoss (after (the (acquireData plain_cipher (EPOC_init None) [] (replicate 128 (Frame ones_frame)) 1 [''O1'', ''O2''] None))) = 0
   \<and> counter (after (the (acquireData plain_cipher (EPOC_init None) [] (replicate 128 (Frame ones_frame)) 1 [''O1'', ''O2''] None))) = 0
   \<and> quality (after (the (acquireData plain_cipher (EPOC_init None) [] (replicate 128 (Frame ones_frame)) 1 [''O1'', ''O2''] None))) = quality_init
   \<and> slices (after (the (acquireData plain_cipher (EPOC_init None) [] (replicate 128 (Frame ones_frame)) 1 [''O1'', ''O2''] None))) = slices_init
   \<and> acquireData plain_cipher (EPOC_init None) [] (replicate 128 (Frame ones_frame)) 1 [''O1'', ''O2''] None \<noteq> None"
proof -
  have m: "set [''O1'', ''O2''] \<subseteq> set channels_list" by (simp add: channels_list_def)
  have run: "acquireData plain_cipher (EPOC_init None) [] (replicate 128 (Frame ones_frame)) 1 [''O1'', ''O2''] None
     = Some (the (acquireData plain_cipher (EPOC_init None) [] (replicate 128 (Frame ones_frame)) 1 [''O1'', ''O2''] None))"
    by (simp add: ones_run [OF m])
  have init: "packetLoss (EPOC_init None) = 0" "counter (EPOC_init None) = 0"
    "quality (EPOC_init None) = quality_init" "slices (EPOC_init None) = slices_init"
    by (simp_all add: EPOC_init_def)
  have ne: "acquireData plain_cipher (EPOC_init None) [] (replicate 128 (Frame ones_frame)) 1 [''O1'', ''O2''] None \<noteq> None"
    by (simp add: ones_run [OF m])
  from acquireData_leaves_counters_and_tables [OF run] init ne show ?thesis
    by simp
qed

lemma quality_init_values: "quality_init e = (if e \<in> set channels_list then Some 0 else None)"
  by (simp add: quality_init_def channels_list_def)

text \<open>
  Before any frame has been seen, \<open>getContactQuality\<close> gives 0 for \<open>F3\<close>, an electrode of
  the ordering, and not \<open>None\<close>.
\<close>

theorem quality_is_zero_before_any_frame:
  "getContactQuality (EPOC_init None) ''F3'' = Some 0
   \<and> cqOrder (EPOC_init None) ! 0 = Some ''F3''"
  by (simp add: getContactQuality_def EPOC_init_def quality_init_def cqOrder_init_def cqOrder_fc6_def
        cqOrder_repeat_def cqOrder_gap_def cqOrder_head_def)

text \<open>
  C6 (amended). \<open>acquireData\<close> never writes the quality map: after a call on a session
  that holds the map of \<open>__init__\<close>, \<open>getContactQuality\<close> gives 0 for each of the 14
  electrodes and \<open>None\<close> for any other name, as before the call and whatever the sequence
  numbers of the frames.
\<close>

theorem acquireData_never_updates_quality:
  assumes "acquireData dec s log dev duration channelMask savePrefix = Some out"
      and "quality s = quality_init"
  shows "getContactQuality (after out) electrode =
           (if electrode \<in> set channels_list then Some 0 else None)
         \<and> getContactQuality (after out) electrode = getContactQuality s electrode"
  using acquireData_same_tables [OF assms(1)] assms(2)
  by (simp add: same_tables_def getContactQuality_def quality_init_values)

lemma ones_seq: "field_value slices_init ''SEQ#'' (the (plain_cipher ones_frame)) = 255"
  by (simp add: field_value_def seq_slice slice_bits_def plain_cipher_def ones_frame_def
        byte_bits_def uint_value_def eval_nat_numeral)

lemma cqOrder_127: "cqOrder_init ! (255 mod 128) = Some ''AF4''"
  by code_simp

text \<open>
  The frames of all ones carry the sequence number 255, and the ordering has \<open>AF4\<close> at
  \<open>255 mod 128\<close>; the quality of \<open>AF4\<close> is still 0 after the call.
\<close>

theorem acquireData_never_updates_quality_witness:
  "acquireData plain_cipher (EPOC_init None) [] (replicate 128 (Frame ones_frame)) 1 [''AF4''] None \<noteq> None
   \<and> quality (EPOC_init None) = quality_init
   \<and> getContactQuality (after (the (acquireData plain_cipher (EPOC_init None) [] (replicate 128 (Frame ones_frame)) 1 [''AF4''] None))) ''AF4'' = Some 0
   \<and> getContactQuality (after (the (acquireData plain_cipher (EPOC_init None) [] (replicate 128 (Frame ones_frame)) 1 [''AF4''] None))) ''GYROX'' = None
   \<and> field_value slices_init ''SEQ#'' (the (plain_cipher ones_frame)) = 255
   \<and> cqOrder (EPOC_init None) ! (255 mod 128) = Some ''AF4''"
proof -
  have c: "cqOrder (EPOC_init None) ! (255 mod 128) = Some ''AF4''"
    using cqOrder_127 by (simp add: EPOC_init_def)
  have m: "set [''AF4''] \<subseteq> set channels_list" by (simp add: channels_list_def)
  have run: "acquireData plain_cipher (EPOC_init None) [] (replicate 128 (Frame ones_frame)) 1 [''AF4''] None
     = Some (the (acquireData plain_cipher (EPOC_init None) [] (replicate 128 (Frame ones_frame)) 1 [''AF4''] None))"
    by (simp add: ones_run [OF m])
  have q: "quality (EPOC_init None) = quality_init" by (simp add: EPOC_init_def)
  have ne: "acquireData plain_cipher (EPOC_init None) [] (replicate 128 (Frame ones_frame)) 1 [''AF4''] None \<noteq> None"
    by (simp add: ones_run [OF m])
  from acquireData_never_updates_quality [OF run q, of "''AF4''"]
       acquireData_never_updates_quality [OF run q, of "''GYROX''"] ne q ones_seq c
  show ?thesis
    by (simp add: channels_list_def)
qed








end
